theory Spec2Isabelle
  imports Main "HOL-Library.Word"
begin

section \<open>The platform underneath a session\<close>

text \<open>
  Session.h calls four things it does not define: \<open>syscalls::close\<close> and
  \<open>syscalls::shutdown\<close> (oxt/system_calls.hpp), the methods \<open>writeScalar\<close>,
  \<open>writeRaw\<close>, \<open>setReadTimeout\<close> and \<open>setWriteTimeout\<close> of MessageChannel
  (MessageChannel.h), and the \<open>closeCallback\<close> function object handed to the
  constructor. Each such call is an \<open>event\<close>. What a call does is not fixed here: a
  \<open>platform\<close> answers every call, given the calls made before it, with an \<open>outcome\<close>.
  Every call is recorded together with its outcome, oldest first, so that a property such
  as "no close primitive was invoked" is a property of the record.

  Buffers (\<open>const char *\<close> with an \<open>unsigned int\<close> size) are byte lists; \<open>char\<close> is
  an 8-bit byte in HOL. Descriptors and process ids are C \<open>int\<close>s on which the code does
  no arithmetic; the timeout is an \<open>unsigned int\<close>.
\<close>

type_synonym bytes = "char list"

datatype how = SHUT_RD | SHUT_WR

datatype event =
    SysClose int
  | SysShutdown int how
  | WriteScalar int bytes
  | WriteRaw int bytes
  | SetReadTimeout int "32 word"
  | SetWriteTimeout int "32 word"
  | CloseCallback nat

text \<open>
  The exceptions named in Session.h. A \<open>SystemException\<close> carries its brief message and
  the system error code; \<open>setBriefMessage\<close> replaces the former and keeps the latter.
  The header documents \<open>boost::thread_interrupted\<close> for sendHeaders, sendBodyBlock,
  shutdownReader, shutdownWriter and closeStream; none of them raises it itself, so it
  comes out of the primitive they call.
\<close>

datatype exn =
    IOException string
  | SystemException string int
  | thread_interrupted

text \<open>
  \<open>Returns ret e\<close>: the call returns \<open>ret\<close> (ignored for the \<open>void\<close> methods) and
  leaves \<open>errno = e\<close>. \<open>ThrowsSystem m e\<close>: it throws \<open>SystemException(m, e)\<close>.
  \<open>Interrupted\<close>: it throws \<open>boost::thread_interrupted\<close>.
\<close>

datatype outcome =
    Returns int int
  | ThrowsSystem string int
  | Interrupted

type_synonym history = "(event \<times> outcome) list"

type_synonym platform = "history \<Rightarrow> event \<Rightarrow> outcome"

record world =
  calls :: history
  errno :: int

definition EIO :: int where
  "EIO = 5"

definition prim :: "platform \<Rightarrow> event \<Rightarrow> world \<Rightarrow> (exn + int) \<times> world" where
  "prim p ev w =
     (let r = p (calls w) ev;
          w' = w\<lparr>calls := calls w @ [(ev, r)]\<rparr>
      in case r of
           Returns ret e \<Rightarrow> (Inr ret, w'\<lparr>errno := e\<rparr>)
         | ThrowsSystem m e \<Rightarrow> (Inl (SystemException m e), w')
         | Interrupted \<Rightarrow> (Inl thread_interrupted, w'))"

text \<open>The calls made between two worlds, the second reached from the first.\<close>

definition new_calls :: "world \<Rightarrow> world \<Rightarrow> history" where
  "new_calls w w' = drop (length (calls w)) (calls w')"

section \<open>Session and StandardSession\<close>

record StandardSession =
  poolIdentifier :: string
  closeCallback :: nat
  fd :: int
  pid :: int

type_synonym 'a result = "(exn + 'a) \<times> StandardSession \<times> world"

text \<open>
  The fields of StandardSession together with the one field of its base class Session;
  \<open>closeCallback\<close> is the identity of the function object, which a call of it
  records. A method takes the session and the world and returns what it returns or
  raises (\<open>Inl\<close> the exception) together with the session and the world it leaves.
  \<open>TRACE_POINT()\<close> only marks a position for backtraces and is left out. The overload
  of sendHeaders on a StaticString forwards its bytes and size to the one given here.

  The constructor stores its three arguments and performs no call.
\<close>

definition StandardSession_new :: "int \<Rightarrow> nat \<Rightarrow> int \<Rightarrow> StandardSession" where
  "StandardSession_new pid' closeCallback' fd' =
     \<lparr>poolIdentifier = [], closeCallback = closeCallback', fd = fd', pid = pid'\<rparr>"

definition getStream :: "StandardSession \<Rightarrow> int" where
  "getStream s = fd s"

definition getPid :: "StandardSession \<Rightarrow> int" where
  "getPid s = pid s"

definition getPoolIdentifier :: "StandardSession \<Rightarrow> string" where
  "getPoolIdentifier s = poolIdentifier s"

definition setPoolIdentifier :: "string \<Rightarrow> StandardSession \<Rightarrow> StandardSession" where
  "setPoolIdentifier v s = s\<lparr>poolIdentifier := v\<rparr>"

definition sendHeaders :: "platform \<Rightarrow> bytes \<Rightarrow> StandardSession \<times> world \<Rightarrow> unit result" where
  "sendHeaders p headers sw =
     (case sw of (s, w) \<Rightarrow>
        let stream = getStream s in
        if stream = - 1 then
          (Inl (IOException (''Cannot write headers to the request handler '' @
              ''because the I/O stream has already been closed or discarded.'')), s, w)
        else
          (case prim p (WriteScalar stream headers) w of
             (Inl (SystemException m e), w') \<Rightarrow>
               (Inl (SystemException (''An error occured while writing headers '' @
                   ''to the request handler'') e), s, w')
           | (Inl x, w') \<Rightarrow> (Inl x, s, w')
           | (Inr r, w') \<Rightarrow> (Inr (), s, w')))"

definition sendBodyBlock :: "platform \<Rightarrow> bytes \<Rightarrow> StandardSession \<times> world \<Rightarrow> unit result" where
  "sendBodyBlock p block sw =
     (case sw of (s, w) \<Rightarrow>
        let stream = getStream s in
        if stream = - 1 then
          (Inl (IOException (''Cannot write request body block to the '' @
              ''request handler because the I/O channel has '' @
              ''already been closed or discarded.'')), s, w)
        else
          (case prim p (WriteRaw stream block) w of
             (Inl (SystemException m e), w') \<Rightarrow>
               (Inl (SystemException (''An error occured while sending the '' @
                   ''request body to the request handler'') e), s, w')
           | (Inl x, w') \<Rightarrow> (Inl x, s, w')
           | (Inr r, w') \<Rightarrow> (Inr (), s, w')))"

definition setReaderTimeout :: "platform \<Rightarrow> 32 word \<Rightarrow> StandardSession \<times> world \<Rightarrow> unit result" where
  "setReaderTimeout p msec sw =
     (case sw of (s, w) \<Rightarrow>
        (case prim p (SetReadTimeout (fd s) msec) w of
           (Inl x, w') \<Rightarrow> (Inl x, s, w')
         | (Inr r, w') \<Rightarrow> (Inr (), s, w')))"

definition setWriterTimeout :: "platform \<Rightarrow> 32 word \<Rightarrow> StandardSession \<times> world \<Rightarrow> unit result" where
  "setWriterTimeout p msec sw =
     (case sw of (s, w) \<Rightarrow>
        (case prim p (SetWriteTimeout (fd s) msec) w of
           (Inl x, w') \<Rightarrow> (Inl x, s, w')
         | (Inr r, w') \<Rightarrow> (Inr (), s, w')))"

definition shutdownReader :: "platform \<Rightarrow> StandardSession \<times> world \<Rightarrow> unit result" where
  "shutdownReader p sw =
     (case sw of (s, w) \<Rightarrow>
        if fd s \<noteq> - 1 then
          (case prim p (SysShutdown (fd s) SHUT_RD) w of
             (Inl x, w') \<Rightarrow> (Inl x, s, w')
           | (Inr ret, w') \<Rightarrow>
               if ret = - 1 then
                 (let e = errno w' in
                  (Inl (SystemException ''Cannot shutdown the reader stream'' e), s, w'))
               else (Inr (), s, w'))
        else (Inr (), s, w))"

definition shutdownWriter :: "platform \<Rightarrow> StandardSession \<times> world \<Rightarrow> unit result" where
  "shutdownWriter p sw =
     (case sw of (s, w) \<Rightarrow>
        if fd s \<noteq> - 1 then
          (case prim p (SysShutdown (fd s) SHUT_WR) w of
             (Inl x, w') \<Rightarrow> (Inl x, s, w')
           | (Inr ret, w') \<Rightarrow>
               if ret = - 1 then
                 (Inl (SystemException ''Cannot shutdown the writer stream'' (errno w')), s, w')
               else (Inr (), s, w'))
        else (Inr (), s, w))"

text \<open>
  closeStream: the assignment \<open>fd = -1\<close> stands after the call of \<open>syscalls::close\<close>
  and before the test of its return value. When the primitive throws, the assignment is
  not reached.
\<close>

definition closeStream :: "platform \<Rightarrow> StandardSession \<times> world \<Rightarrow> unit result" where
  "closeStream p sw =
     (case sw of (s, w) \<Rightarrow>
        if fd s \<noteq> - 1 then
          (case prim p (SysClose (fd s)) w of
             (Inl x, w') \<Rightarrow> (Inl x, s, w')
           | (Inr ret, w') \<Rightarrow>
               (let s' = s\<lparr>fd := - 1\<rparr> in
                if ret = - 1 then
                  (if errno w' = EIO then
                     (Inl (SystemException ''A write operation on the session stream failed''
                        (errno w')), s', w')
                   else
                     (Inl (SystemException ''Cannot close the session stream''
                        (errno w')), s', w'))
                else (Inr (), s', w')))
        else (Inr (), s, w))"

definition discardStream :: "StandardSession \<times> world \<Rightarrow> StandardSession \<times> world" where
  "discardStream sw = (case sw of (s, w) \<Rightarrow> (s\<lparr>fd := - 1\<rparr>, w))"

text \<open>
  The destructor \<open>~StandardSession\<close>: \<open>closeStream(); closeCallback();\<close>. An
  exception leaving closeStream leaves the destructor, and the second statement is not
  run.
\<close>

definition StandardSession_destroy :: "platform \<Rightarrow> StandardSession \<times> world \<Rightarrow> unit result" where
  "StandardSession_destroy p sw =
     (case closeStream p sw of
        (Inl x, s', w') \<Rightarrow> (Inl x, s', w')
      | (Inr u, s', w') \<Rightarrow>
          (case prim p (CloseCallback (closeCallback s')) w' of
             (Inl x, w'') \<Rightarrow> (Inl x, s', w'')
           | (Inr r, w'') \<Rightarrow> (Inr (), s', w'')))"

section \<open>Callers\<close>

text \<open>
  A caller invokes the methods of a session one after another and may catch what they
  throw. \<open>run\<close> performs a sequence of invocations whatever each one returns or raises;
  a caller that stops at the first exception performs a prefix of it.
\<close>

datatype operation =
    SendHeaders bytes
  | SendBodyBlock bytes
  | SetReaderTimeout "32 word"
  | SetWriterTimeout "32 word"
  | ShutdownReader
  | ShutdownWriter
  | CloseStream
  | DiscardStream
  | SetPoolIdentifier string

fun invoke :: "platform \<Rightarrow> operation \<Rightarrow> StandardSession \<times> world \<Rightarrow> unit result" where
  "invoke p (SendHeaders b) sw = sendHeaders p b sw"
| "invoke p (SendBodyBlock b) sw = sendBodyBlock p b sw"
| "invoke p (SetReaderTimeout msec) sw = setReaderTimeout p msec sw"
| "invoke p (SetWriterTimeout msec) sw = setWriterTimeout p msec sw"
| "invoke p ShutdownReader sw = shutdownReader p sw"
| "invoke p ShutdownWriter sw = shutdownWriter p sw"
| "invoke p CloseStream sw = closeStream p sw"
| "invoke p DiscardStream sw = (Inr (), discardStream sw)"
| "invoke p (SetPoolIdentifier v) sw = (Inr (), setPoolIdentifier v (fst sw), snd sw)"

fun run :: "platform \<Rightarrow> operation list \<Rightarrow> StandardSession \<times> world \<Rightarrow> StandardSession \<times> world" where
  "run p [] sw = sw"
| "run p (m # ms) sw = run p ms (snd (invoke p m sw))"

text \<open>
  The request body sent as several blocks: sendBodyBlock once per block, in order, the
  first exception ending the sequence.
\<close>

fun sendBodyBlocks :: "platform \<Rightarrow> bytes list \<Rightarrow> StandardSession \<times> world \<Rightarrow> unit result" where
  "sendBodyBlocks p [] sw = (Inr (), sw)"
| "sendBodyBlocks p (b # bs) sw =
     (case sendBodyBlock p b sw of
        (Inl x, sw') \<Rightarrow> (Inl x, sw')
      | (Inr u, sw') \<Rightarrow> sendBodyBlocks p bs sw')"

section \<open>Observations on the record of calls\<close>

definition is_callback :: "nat \<Rightarrow> event \<times> outcome \<Rightarrow> bool" where
  "is_callback c x = (fst x = CloseCallback c)"

definition callback_count :: "nat \<Rightarrow> history \<Rightarrow> nat" where
  "callback_count c h = length (filter (is_callback c) h)"

text \<open>A call of the close or of the half-close primitive, on any descriptor.\<close>

fun closes_or_shuts :: "event \<times> outcome \<Rightarrow> bool" where
  "closes_or_shuts (SysClose d, r) = True"
| "closes_or_shuts (SysShutdown d h, r) = True"
| "closes_or_shuts (ev, r) = False"

definition close_count :: "int \<Rightarrow> history \<Rightarrow> nat" where
  "close_count d h = length (filter (\<lambda>x. fst x = SysClose d) h)"

text \<open>
  Modelled from the spec: the bytes MessageChannel puts on the stream (MessageChannel.h
  is not part of the sources). A framed message is the buffer preceded by a length
  indicator; raw bytes are written as they are. The layout of the length indicator is
  left open by the specification and is the parameter \<open>frame\<close>. Only a write that
  returned has delivered its bytes.
\<close>

fun on_wire :: "(nat \<Rightarrow> bytes) \<Rightarrow> int \<Rightarrow> event \<times> outcome \<Rightarrow> bytes" where
  "on_wire frame d (WriteScalar d' b, Returns r e) = (if d' = d then frame (length b) @ b else [])"
| "on_wire frame d (WriteRaw d' b, Returns r e) = (if d' = d then b else [])"
| "on_wire frame d (ev, r) = []"

definition wire :: "(nat \<Rightarrow> bytes) \<Rightarrow> int \<Rightarrow> history \<Rightarrow> bytes" where
  "wire frame d h = concat (map (on_wire frame d) h)"

section \<open>The header grammar\<close>

text \<open>
  The grammar in the documentation of sendHeaders:
  \<^verbatim>\<open>headers ::= header*   header ::= name NUL value NUL\<close>
  \<^verbatim>\<open>name ::= notnull+      value ::= notnull+\<close>
\<close>

definition NUL :: char where
  "NUL = CHR 0x00"

definition notnull :: "char \<Rightarrow> bool" where
  "notnull c = (c \<noteq> NUL)"

definition notnulls :: "bytes \<Rightarrow> bool" where
  "notnulls f = (f \<noteq> [] \<and> list_all notnull f)"

inductive headers :: "bytes \<Rightarrow> bool" where
  headers_none: "headers []"
| headers_more: "notnulls name \<Longrightarrow> notnulls val \<Longrightarrow> headers rest \<Longrightarrow>
     headers (name @ NUL # val @ NUL # rest)"

text \<open>
  Modelled from the spec: the encoder of header pairs. The caller encodes the headers;
  no encoder is part of the sources. Each pair is written as name NUL value NUL, the
  pairs in order.
\<close>

definition encode_header :: "bytes \<times> bytes \<Rightarrow> bytes" where
  "encode_header nv = fst nv @ [NUL] @ snd nv @ [NUL]"

definition encode_headers :: "(bytes \<times> bytes) list \<Rightarrow> bytes" where
  "encode_headers nvs = concat (map encode_header nvs)"

text \<open>
  Modelled from the spec: splitting a buffer on a separator byte. The pieces are the
  maximal runs between separators, empty ones included (a buffer ending in the separator
  has an empty last piece); \<open>tokens\<close> keeps the non-empty pieces.
\<close>

fun split_on :: "char \<Rightarrow> bytes \<Rightarrow> bytes list" where
  "split_on c [] = [[]]"
| "split_on c (x # xs) =
     (if x = c then [] # split_on c xs
      else (case split_on c xs of
              [] \<Rightarrow> [[x]]
            | t # ts \<Rightarrow> (x # t) # ts))"

definition tokens :: "bytes \<Rightarrow> bytes list" where
  "tokens buf = filter (\<lambda>t. t \<noteq> []) (split_on NUL buf)"

section \<open>Concrete platforms and sessions\<close>

text \<open>
  A platform on which every call returns 0, one on which the close primitive returns -1
  with a given error code, one on which it is interrupted, and one on which the
  MessageChannel writes throw a SystemException with a given code.
\<close>

definition all_ok :: platform where
  "all_ok h ev = Returns 0 0"

fun close_fails :: "int \<Rightarrow> platform" where
  "close_fails e h (SysClose d) = Returns (- 1) e"
| "close_fails e h ev = Returns 0 0"

fun close_interrupted :: platform where
  "close_interrupted h (SysClose d) = Interrupted"
| "close_interrupted h ev = Returns 0 0"

fun write_fails :: "int \<Rightarrow> platform" where
  "write_fails e h (WriteScalar d b) = ThrowsSystem ''write() failed'' e"
| "write_fails e h (WriteRaw d b) = ThrowsSystem ''write() failed'' e"
| "write_fails e h ev = Returns 0 0"

text \<open>A length indicator for instances: the length as four bytes, most significant first.\<close>

definition length_be32 :: "nat \<Rightarrow> bytes" where
  "length_be32 n =
     [char_of (n div 16777216), char_of (n div 65536), char_of (n div 256), char_of n]"

definition w0 :: world where
  "w0 = \<lparr>calls = [], errno = 0\<rparr>"

definition session5 :: StandardSession where
  "session5 = StandardSession_new 1234 7 5"

section \<open>Basic facts about the methods\<close>

lemma prim_cases:
  "prim p ev w =
     (case p (calls w) ev of
        Returns ret e \<Rightarrow> (Inr ret, \<lparr>calls = calls w @ [(ev, Returns ret e)], errno = e\<rparr>)
      | ThrowsSystem m e \<Rightarrow> (Inl (SystemException m e), \<lparr>calls = calls w @ [(ev, ThrowsSystem m e)], errno = errno w\<rparr>)
      | Interrupted \<Rightarrow> (Inl thread_interrupted, \<lparr>calls = calls w @ [(ev, Interrupted)], errno = errno w\<rparr>))"
  by (simp add: prim_def Let_def split: outcome.splits)

lemma new_calls_same [simp]: "new_calls w w = []"
  by (simp add: new_calls_def)

lemma closeStream_absent: "fd s = - 1 \<Longrightarrow> closeStream p (s, w) = (Inr (), s, w)"
  by (simp add: closeStream_def)

lemma closeStream_present:
  "fd s \<noteq> - 1 \<Longrightarrow> closeStream p (s, w) =
     (case p (calls w) (SysClose (fd s)) of
        Returns ret e \<Rightarrow>
          (if ret = - 1 then
             Inl (SystemException (if e = EIO then ''A write operation on the session stream failed''
                                   else ''Cannot close the session stream'') e)
           else Inr (),
           s\<lparr>fd := - 1\<rparr>, \<lparr>calls = calls w @ [(SysClose (fd s), Returns ret e)], errno = e\<rparr>)
      | ThrowsSystem m e \<Rightarrow>
          (Inl (SystemException m e), s, \<lparr>calls = calls w @ [(SysClose (fd s), ThrowsSystem m e)], errno = errno w\<rparr>)
      | Interrupted \<Rightarrow>
          (Inl thread_interrupted, s, \<lparr>calls = calls w @ [(SysClose (fd s), Interrupted)], errno = errno w\<rparr>))"
  by (simp add: closeStream_def prim_cases Let_def split: outcome.splits)

lemma shutdownReader_absent: "fd s = - 1 \<Longrightarrow> shutdownReader p (s, w) = (Inr (), s, w)"
  by (simp add: shutdownReader_def)

lemma shutdownWriter_absent: "fd s = - 1 \<Longrightarrow> shutdownWriter p (s, w) = (Inr (), s, w)"
  by (simp add: shutdownWriter_def)

lemma invoke_absent:
  assumes "fd s = - 1"
  shows "fd (fst (snd (invoke p m (s, w)))) = - 1
       \<and> (\<exists>h. calls (snd (snd (invoke p m (s, w)))) = calls w @ h \<and> \<not> list_ex closes_or_shuts h)"
  using assms
  by (cases m)
     (auto simp: sendHeaders_def sendBodyBlock_def setReaderTimeout_def setWriterTimeout_def
        shutdownReader_def shutdownWriter_def closeStream_def discardStream_def
        setPoolIdentifier_def getStream_def prim_cases split: outcome.splits)

lemma run_absent:
  "fd s = - 1 \<Longrightarrow>
     fd (fst (run p ms (s, w))) = - 1
   \<and> (\<exists>h. calls (snd (run p ms (s, w))) = calls w @ h \<and> \<not> list_ex closes_or_shuts h)"
proof (induction ms arbitrary: s w)
  case Nil
  then show ?case by simp
next
  case (Cons m ms)
  obtain r s1 w1 where inv: "invoke p m (s, w) = (r, s1, w1)"
    by (cases "invoke p m (s, w)") auto
  from invoke_absent [OF Cons.prems, of p m w] inv
  obtain h1 where s1: "fd s1 = - 1" and h1: "calls w1 = calls w @ h1" "\<not> list_ex closes_or_shuts h1"
    by auto
  from Cons.IH [OF s1, of w1]
  obtain h2 where fin: "fd (fst (run p ms (s1, w1))) = - 1"
    and h2: "calls (snd (run p ms (s1, w1))) = calls w1 @ h2" "\<not> list_ex closes_or_shuts h2"
    by auto
  have "calls (snd (run p (m # ms) (s, w))) = calls w @ (h1 @ h2)"
    using inv h1 h2 by simp
  moreover have "\<not> list_ex closes_or_shuts (h1 @ h2)"
    using h1 h2 by (auto simp: list_ex_iff)
  ultimately show ?case using fin inv by auto
qed

lemma destroy_absent:
  "fd s = - 1 \<Longrightarrow>
     calls (snd (snd (StandardSession_destroy p (s, w))))
       = calls w @ [(CloseCallback (closeCallback s), p (calls w) (CloseCallback (closeCallback s)))]"
  by (simp add: StandardSession_destroy_def closeStream_absent prim_cases split: outcome.splits)


lemma closeStream_calls:
  "\<exists>h. calls (snd (snd (closeStream p (s, w)))) = calls w @ h
       \<and> callback_count c h = 0
       \<and> (fd s = - 1 \<longrightarrow> h = [])"
  by (cases "fd s = - 1")
     (auto simp: closeStream_absent closeStream_present callback_count_def is_callback_def
        split: outcome.splits)

lemma closeStream_closeCallback:
  "closeCallback (fst (snd (closeStream p (s, w)))) = closeCallback s"
  by (cases "fd s = - 1")
     (auto simp: closeStream_absent closeStream_present split: outcome.splits)

lemma destroy_cases:
  "StandardSession_destroy p (s, w) =
     (case closeStream p (s, w) of
        (Inl x, s', w') \<Rightarrow> (Inl x, s', w')
      | (Inr u, s', w') \<Rightarrow>
          (case p (calls w') (CloseCallback (closeCallback s)) of
             Returns ret e \<Rightarrow> Inr ()
           | ThrowsSystem m e \<Rightarrow> Inl (SystemException m e)
           | Interrupted \<Rightarrow> Inl thread_interrupted,
           s',
           \<lparr>calls = calls w' @ [(CloseCallback (closeCallback s),
                                  p (calls w') (CloseCallback (closeCallback s)))],
            errno = (case p (calls w') (CloseCallback (closeCallback s)) of
                       Returns ret e \<Rightarrow> e | _ \<Rightarrow> errno w')\<rparr>))"
proof -
  obtain r s' w' where c: "closeStream p (s, w) = (r, s', w')"
    by (cases "closeStream p (s, w)") auto
  have cb: "closeCallback s' = closeCallback s"
    using closeStream_closeCallback [of p s w] c by simp
  show ?thesis
    by (cases r) (simp_all add: StandardSession_destroy_def c cb prim_cases split: outcome.splits)
qed

section \<open>Destruction and the release callback\<close>

text \<open>
  C1 (as amended). Destroying a session invokes closeCallback exactly once, as the last
  call and after the close attempt, whenever the close attempt does not raise: the close
  primitive returned something other than -1, or the handle was already absent because
  closeStream() or discardStream() had been called (then the callback is the only call).
  When the close attempt raises, the exception leaves the destructor and closeCallback is
  not invoked.
\<close>

theorem destroy_callback_count:
  "callback_count (closeCallback s)
       (new_calls w (snd (snd (StandardSession_destroy p (s, w)))))
     = (case fst (closeStream p (s, w)) of Inl x \<Rightarrow> 0 | Inr u \<Rightarrow> 1)
   \<and> (fst (closeStream p (s, w)) = Inr () \<longrightarrow>
        new_calls w (snd (snd (StandardSession_destroy p (s, w))))
          = new_calls w (snd (snd (closeStream p (s, w))))
            @ [(CloseCallback (closeCallback s),
                p (calls (snd (snd (closeStream p (s, w))))) (CloseCallback (closeCallback s)))])
   \<and> (fd s = - 1 \<longrightarrow>
        new_calls w (snd (snd (StandardSession_destroy p (s, w))))
          = [(CloseCallback (closeCallback s), p (calls w) (CloseCallback (closeCallback s)))])
   \<and> (fst (closeStream p (s, w)) = Inl x \<longrightarrow>
        StandardSession_destroy p (s, w) = closeStream p (s, w))"
proof -
  obtain r s' w' where c: "closeStream p (s, w) = (r, s', w')"
    by (cases "closeStream p (s, w)") auto
  obtain h where h: "calls w' = calls w @ h" "callback_count (closeCallback s) h = 0"
      "fd s = - 1 \<longrightarrow> h = []"
    using closeStream_calls [of p s w "closeCallback s"] c by auto
  show ?thesis
  proof (cases r)
    case (Inl x)
    then show ?thesis
      using c h
      by (auto simp: destroy_cases new_calls_def closeStream_absent)
  next
    case (Inr u)
    then show ?thesis
      using c h
      by (auto simp: destroy_cases new_calls_def callback_count_def is_callback_def)
  qed
qed

text \<open>
  Instances: a session on descriptor 5 destroyed on a platform where every call succeeds,
  and the same session destroyed after discardStream() on a platform whose close fails.
\<close>

theorem destroy_callback_count_witness:
  "callback_count 7 (new_calls w0 (snd (snd (StandardSession_destroy all_ok (session5, w0))))) = 1
   \<and> new_calls w0 (snd (snd (StandardSession_destroy all_ok (session5, w0))))
       = [(SysClose 5, Returns 0 0), (CloseCallback 7, Returns 0 0)]
   \<and> new_calls w0 (snd (snd (StandardSession_destroy (close_fails 9)
         (discardStream (session5, w0)))))
       = [(CloseCallback 7, Returns 0 0)]"
  using destroy_callback_count [of session5 w0 all_ok]
    destroy_callback_count [of "fst (discardStream (session5, w0))" w0 "close_fails 9"]
  by (simp add: session5_def StandardSession_new_def w0_def all_ok_def closeStream_def
      prim_cases discardStream_def new_calls_def callback_count_def is_callback_def)

text \<open>
  On a platform whose close primitive returns -1 with errno 9, destroying a session on
  descriptor 5 raises the SystemException of closeStream; the close is the only call
  made and closeCallback is not invoked.
\<close>

theorem destroy_close_fails_counterexample:
  "fst (StandardSession_destroy (close_fails 9) (session5, w0))
     = Inl (SystemException ''Cannot close the session stream'' 9)
   \<and> callback_count 7 (new_calls w0 (snd (snd (StandardSession_destroy (close_fails 9)
        (session5, w0))))) = 0
   \<and> new_calls w0 (snd (snd (StandardSession_destroy (close_fails 9) (session5, w0))))
       = [(SysClose 5, Returns (- 1) 9)]"
  by (simp add: StandardSession_destroy_def closeStream_def prim_cases session5_def
      StandardSession_new_def w0_def new_calls_def callback_count_def is_callback_def EIO_def)


section \<open>A closed or discarded session\<close>

text \<open>
  C2. After closeStream() has returned, or after discardStream(), getStream() is -1, and
  closeStream(), shutdownReader() and shutdownWriter() return without an exception and
  leave session and world as they were (no call is recorded), on any platform and in any
  later world. The same holds after any further sequence of invocations, during
  which no close or shutdown primitive is called either.
\<close>

theorem closed_session_noop:
  assumes "closeStream p (s, w) = (Inr (), s1, w') \<or> discardStream (s, w) = (s1, w')"
  shows "getStream s1 = - 1
       \<and> closeStream q (s1, w1) = (Inr (), s1, w1)
       \<and> shutdownReader q (s1, w1) = (Inr (), s1, w1)
       \<and> shutdownWriter q (s1, w1) = (Inr (), s1, w1)
       \<and> getStream (fst (run q ms (s1, w1))) = - 1
       \<and> \<not> list_ex closes_or_shuts (new_calls w1 (snd (run q ms (s1, w1))))
       \<and> closeStream q (run q ms (s1, w1)) = (Inr (), run q ms (s1, w1))
       \<and> shutdownReader q (run q ms (s1, w1)) = (Inr (), run q ms (s1, w1))
       \<and> shutdownWriter q (run q ms (s1, w1)) = (Inr (), run q ms (s1, w1))"
proof -
  have absent: "fd s1 = - 1"
    using assms
    by (cases "fd s = - 1")
       (auto simp: closeStream_absent closeStream_present discardStream_def
          split: outcome.splits if_splits)
  obtain s2 w2 where r: "run q ms (s1, w1) = (s2, w2)"
    by (cases "run q ms (s1, w1)") auto
  obtain h where h: "fd s2 = - 1" "calls w2 = calls w1 @ h" "\<not> list_ex closes_or_shuts h"
    using run_absent [OF absent, of q ms w1] r by auto
  have "new_calls w1 w2 = h"
    using h by (simp add: new_calls_def)
  then show ?thesis
    using absent h r
    by (simp add: getStream_def closeStream_absent shutdownReader_absent shutdownWriter_absent)
qed

text \<open>Instance: the session on descriptor 5 after a successful closeStream().\<close>

theorem closed_session_noop_witness:
  "getStream (fst (snd (closeStream all_ok (session5, w0)))) = - 1
   \<and> closeStream (close_fails 9) (snd (closeStream all_ok (session5, w0)))
       = (Inr (), snd (closeStream all_ok (session5, w0)))
   \<and> shutdownReader (close_fails 9) (snd (closeStream all_ok (session5, w0)))
       = (Inr (), snd (closeStream all_ok (session5, w0)))
   \<and> shutdownWriter (close_fails 9) (snd (closeStream all_ok (session5, w0)))
       = (Inr (), snd (closeStream all_ok (session5, w0)))"
proof -
  have c: "closeStream all_ok (session5, w0)
      = (Inr (), session5\<lparr>fd := - 1\<rparr>, \<lparr>calls = [(SysClose 5, Returns 0 0)], errno = 0\<rparr>)"
    by (simp add: closeStream_def prim_cases session5_def StandardSession_new_def w0_def
        all_ok_def)
  show ?thesis
    using closed_session_noop [of all_ok session5 w0 "session5\<lparr>fd := - 1\<rparr>"
        "\<lparr>calls = [(SysClose 5, Returns 0 0)], errno = 0\<rparr>" "close_fails 9"
        "\<lparr>calls = [(SysClose 5, Returns 0 0)], errno = 0\<rparr>" "[]"] c
    by simp
qed

section \<open>closeStream and the handle\<close>

text \<open>
  Whenever the close primitive returns, with success or with -1, closeStream() has set
  the handle to -1, also when it raises its SystemException, which carries the errno
  of the close; a following closeStream() is a no-op, and destroying the session
  afterwards adds no second close of the descriptor.
\<close>

lemma closeStream_returns_absent:
  assumes "fd s \<noteq> - 1" and "p (calls w) (SysClose (fd s)) = Returns ret e"
  shows "getStream (fst (snd (closeStream p (s, w)))) = - 1
       \<and> (fst (closeStream p (s, w)) = Inr ()) = (ret \<noteq> - 1)
       \<and> (fst (closeStream p (s, w)) = Inr ()
            \<or> (\<exists>m. fst (closeStream p (s, w)) = Inl (SystemException m e)))
       \<and> closeStream q (fst (snd (closeStream p (s, w))), w1)
            = (Inr (), fst (snd (closeStream p (s, w))), w1)
       \<and> close_count (fd s) (new_calls w
            (snd (snd (StandardSession_destroy q (snd (closeStream p (s, w))))))) = 1"
proof -
  let ?s' = "s\<lparr>fd := - 1\<rparr>"
  let ?w' = "\<lparr>calls = calls w @ [(SysClose (fd s), Returns ret e)], errno = e\<rparr>"
  have c: "snd (closeStream p (s, w)) = (?s', ?w')"
    using assms by (simp add: closeStream_present)
  have d: "calls (snd (snd (StandardSession_destroy q (?s', ?w'))))
      = calls ?w' @ [(CloseCallback (closeCallback ?s'), q (calls ?w') (CloseCallback (closeCallback ?s')))]"
    by (rule destroy_absent) simp
  have "new_calls w (snd (snd (StandardSession_destroy q (?s', ?w'))))
      = [(SysClose (fd s), Returns ret e),
         (CloseCallback (closeCallback ?s'), q (calls ?w') (CloseCallback (closeCallback ?s')))]"
    by (simp add: d new_calls_def)
  then have "close_count (fd s) (new_calls w (snd (snd (StandardSession_destroy q (?s', ?w'))))) = 1"
    by (simp add: close_count_def)
  then show ?thesis
    using assms c
    by (auto simp: closeStream_present closeStream_absent getStream_def)
qed

text \<open>
  C3. The claim: closeStream() on a present handle sets the handle to -1 before raising
  any error, so that getStream() is -1 afterwards and no session closes its descriptor
  twice. The code fails it where the close primitive is interrupted: closeStream() on
  descriptor 5 raises thread_interrupted, getStream() is still 5 although the method
  documents the postcondition getStream() = -1, and the destructor that follows calls
  the close primitive on descriptor 5 a second time.
\<close>

theorem closeStream_interrupted_keeps_handle:
  "fst (closeStream close_interrupted (session5, w0)) = Inl thread_interrupted
   \<and> getStream (fst (snd (closeStream close_interrupted (session5, w0)))) = 5
   \<and> close_count 5 (new_calls w0 (snd (snd (StandardSession_destroy close_interrupted
        (snd (closeStream close_interrupted (session5, w0))))))) = 2"
  by (simp add: StandardSession_destroy_def closeStream_def prim_cases session5_def
      StandardSession_new_def w0_def new_calls_def close_count_def getStream_def)

text \<open>
  C4. When the close primitive returns -1 with errno EIO, closeStream() raises the
  SystemException "A write operation on the session stream failed" with code EIO; for
  any other errno it raises "Cannot close the session stream" with that errno. The two
  exceptions are different values, so a caller can tell a failed pending write from an
  ordinary close failure.
\<close>

theorem closeStream_pending_write_failed:
  assumes "fd s \<noteq> - 1" and "p (calls w) (SysClose (fd s)) = Returns (- 1) e"
  shows "(e = EIO \<longrightarrow> fst (closeStream p (s, w))
            = Inl (SystemException ''A write operation on the session stream failed'' EIO))
       \<and> (e \<noteq> EIO \<longrightarrow> fst (closeStream p (s, w))
            = Inl (SystemException ''Cannot close the session stream'' e))
       \<and> (fd s2 \<noteq> - 1 \<and> p2 (calls w2) (SysClose (fd s2)) = Returns (- 1) e2
            \<and> (e = EIO) \<noteq> (e2 = EIO)
          \<longrightarrow> fst (closeStream p (s, w)) \<noteq> fst (closeStream p2 (s2, w2)))"
  using assms by (auto simp: closeStream_present)

text \<open>Instances: the close primitive failing with EIO and with errno 9.\<close>

theorem closeStream_pending_write_failed_witness:
  "fst (closeStream (close_fails EIO) (session5, w0))
     = Inl (SystemException ''A write operation on the session stream failed'' EIO)
   \<and> fst (closeStream (close_fails 9) (session5, w0))
     = Inl (SystemException ''Cannot close the session stream'' 9)
   \<and> fst (closeStream (close_fails EIO) (session5, w0))
     \<noteq> fst (closeStream (close_fails 9) (session5, w0))"
  using closeStream_pending_write_failed [of session5 "close_fails EIO" w0 EIO session5
      "close_fails 9" w0 9]
    closeStream_pending_write_failed [of session5 "close_fails 9" w0 9 session5
      "close_fails EIO" w0 EIO]
  by (simp add: session5_def StandardSession_new_def w0_def EIO_def)

section \<open>Sending\<close>

lemma sendHeaders_present:
  "fd s \<noteq> - 1 \<Longrightarrow> sendHeaders p buf (s, w) =
     (case p (calls w) (WriteScalar (fd s) buf) of
        Returns ret e \<Rightarrow>
          (Inr (), s, \<lparr>calls = calls w @ [(WriteScalar (fd s) buf, Returns ret e)], errno = e\<rparr>)
      | ThrowsSystem m e \<Rightarrow>
          (Inl (SystemException ''An error occured while writing headers to the request handler'' e),
           s, \<lparr>calls = calls w @ [(WriteScalar (fd s) buf, ThrowsSystem m e)], errno = errno w\<rparr>)
      | Interrupted \<Rightarrow>
          (Inl thread_interrupted,
           s, \<lparr>calls = calls w @ [(WriteScalar (fd s) buf, Interrupted)], errno = errno w\<rparr>))"
  by (simp add: sendHeaders_def getStream_def prim_cases Let_def split: outcome.splits)

lemma sendBodyBlock_present:
  "fd s \<noteq> - 1 \<Longrightarrow> sendBodyBlock p buf (s, w) =
     (case p (calls w) (WriteRaw (fd s) buf) of
        Returns ret e \<Rightarrow>
          (Inr (), s, \<lparr>calls = calls w @ [(WriteRaw (fd s) buf, Returns ret e)], errno = e\<rparr>)
      | ThrowsSystem m e \<Rightarrow>
          (Inl (SystemException
             ''An error occured while sending the request body to the request handler'' e),
           s, \<lparr>calls = calls w @ [(WriteRaw (fd s) buf, ThrowsSystem m e)], errno = errno w\<rparr>)
      | Interrupted \<Rightarrow>
          (Inl thread_interrupted,
           s, \<lparr>calls = calls w @ [(WriteRaw (fd s) buf, Interrupted)], errno = errno w\<rparr>))"
  by (simp add: sendBodyBlock_def getStream_def prim_cases Let_def split: outcome.splits)

text \<open>
  C5. With an absent handle, sendHeaders and sendBodyBlock raise an IOException and
  touch neither session nor world. With a present handle and a write that throws a
  SystemException with code e, they raise a SystemException with the same code e.
\<close>

theorem send_failures:
  "(fd s = - 1 \<longrightarrow>
      (\<exists>m. sendHeaders p buf (s, w) = (Inl (IOException m), s, w))
    \<and> (\<exists>m. sendBodyBlock p buf (s, w) = (Inl (IOException m), s, w)))
   \<and> (fd s \<noteq> - 1 \<and> p (calls w) (WriteScalar (fd s) buf) = ThrowsSystem m e \<longrightarrow>
        (\<exists>m'. fst (sendHeaders p buf (s, w)) = Inl (SystemException m' e)))
   \<and> (fd s \<noteq> - 1 \<and> p (calls w) (WriteRaw (fd s) buf) = ThrowsSystem m e \<longrightarrow>
        (\<exists>m'. fst (sendBodyBlock p buf (s, w)) = Inl (SystemException m' e)))"
  by (simp add: sendHeaders_def sendBodyBlock_def getStream_def prim_cases)

text \<open>
  Instances: sending after closeStream() and after discardStream(), and sending on
  descriptor 5 when the write throws with code 32.
\<close>

theorem send_failures_witness:
  "(\<exists>m. sendHeaders all_ok ''A'' (snd (closeStream all_ok (session5, w0)))
        = (Inl (IOException m), snd (closeStream all_ok (session5, w0))))
   \<and> (\<exists>m. sendBodyBlock all_ok ''a=1'' (discardStream (session5, w0))
        = (Inl (IOException m), discardStream (session5, w0)))
   \<and> (\<exists>m'. fst (sendHeaders (write_fails 32) ''A'' (session5, w0)) = Inl (SystemException m' 32))
   \<and> (\<exists>m'. fst (sendBodyBlock (write_fails 32) ''a=1'' (session5, w0)) = Inl (SystemException m' 32))"
proof -
  have c: "snd (closeStream all_ok (session5, w0))
      = (session5\<lparr>fd := - 1\<rparr>, \<lparr>calls = [(SysClose 5, Returns 0 0)], errno = 0\<rparr>)"
    by (simp add: closeStream_def prim_cases session5_def StandardSession_new_def w0_def
        all_ok_def)
  have d: "discardStream (session5, w0) = (session5\<lparr>fd := - 1\<rparr>, w0)"
    by (simp add: discardStream_def)
  show ?thesis
    unfolding c d
    using send_failures [of "session5\<lparr>fd := - 1\<rparr>" all_ok "''A''"
        "\<lparr>calls = [(SysClose 5, Returns 0 0)], errno = 0\<rparr>"]
      send_failures [of "session5\<lparr>fd := - 1\<rparr>" all_ok "''a=1''" w0]
      send_failures [of session5 "write_fails 32" "''A''" w0 "''write() failed''" 32]
      send_failures [of session5 "write_fails 32" "''a=1''" w0 "''write() failed''" 32]
    by (simp add: session5_def StandardSession_new_def w0_def)
qed

section \<open>Timeouts and half-close\<close>

text \<open>
  C9. With an absent handle, setReaderTimeout and setWriterTimeout make exactly one call,
  of the timeout primitive with descriptor -1, and return or raise what that primitive
  returns or throws; they never raise an IOException.
\<close>

theorem setTimeout_absent_handle:
  assumes "fd s = - 1"
  shows "map fst (new_calls w (snd (snd (setReaderTimeout p msec (s, w)))))
           = [SetReadTimeout (- 1) msec]
       \<and> map fst (new_calls w (snd (snd (setWriterTimeout p msec (s, w)))))
           = [SetWriteTimeout (- 1) msec]
       \<and> fst (setReaderTimeout p msec (s, w))
           = (case p (calls w) (SetReadTimeout (- 1) msec) of
                Returns ret e \<Rightarrow> Inr ()
              | ThrowsSystem m e \<Rightarrow> Inl (SystemException m e)
              | Interrupted \<Rightarrow> Inl thread_interrupted)
       \<and> fst (setWriterTimeout p msec (s, w))
           = (case p (calls w) (SetWriteTimeout (- 1) msec) of
                Returns ret e \<Rightarrow> Inr ()
              | ThrowsSystem m e \<Rightarrow> Inl (SystemException m e)
              | Interrupted \<Rightarrow> Inl thread_interrupted)
       \<and> fst (setReaderTimeout p msec (s, w)) \<noteq> Inl (IOException m')
       \<and> fst (setWriterTimeout p msec (s, w)) \<noteq> Inl (IOException m')"
  using assms
  by (auto simp: setReaderTimeout_def setWriterTimeout_def prim_cases new_calls_def
      split: outcome.splits)

text \<open>Instance: a timeout of 250 ms set after discardStream().\<close>

theorem setTimeout_absent_handle_witness:
  "map fst (new_calls w0 (snd (snd (setReaderTimeout all_ok 250 (discardStream (session5, w0))))))
     = [SetReadTimeout (- 1) 250]
   \<and> map fst (new_calls w0 (snd (snd (setWriterTimeout all_ok 250 (discardStream (session5, w0))))))
     = [SetWriteTimeout (- 1) 250]
   \<and> fst (setReaderTimeout all_ok 250 (discardStream (session5, w0))) = Inr ()
   \<and> fst (setWriterTimeout all_ok 250 (discardStream (session5, w0))) = Inr ()"
  using setTimeout_absent_handle [of "session5\<lparr>fd := - 1\<rparr>" w0 all_ok 250]
  by (simp add: discardStream_def all_ok_def)

text \<open>
  C10. shutdownReader() and shutdownWriter() leave the handle as it was. After either has
  returned on a present handle, getStream() is still that descriptor, sendBodyBlock calls
  the raw write on it and closeStream() calls the close primitive on it; neither raises
  an IOException.
\<close>

theorem shutdown_keeps_handle:
  "getStream (fst (snd (shutdownReader p (s, w)))) = getStream s
   \<and> getStream (fst (snd (shutdownWriter p (s, w)))) = getStream s
   \<and> (fd s \<noteq> - 1
        \<and> (shutdownReader p (s, w) = (Inr (), s', w') \<or> shutdownWriter p (s, w) = (Inr (), s', w'))
      \<longrightarrow> getStream s' = fd s
        \<and> map fst (new_calls w' (snd (snd (sendBodyBlock q b (s', w'))))) = [WriteRaw (fd s) b]
        \<and> fst (sendBodyBlock q b (s', w')) \<noteq> Inl (IOException m)
        \<and> map fst (new_calls w' (snd (snd (closeStream q (s', w'))))) = [SysClose (fd s)]
        \<and> fst (closeStream q (s', w')) \<noteq> Inl (IOException m))"
proof -
  have keep: "fst (snd (shutdownReader p (s, w))) = s" "fst (snd (shutdownWriter p (s, w))) = s"
    by (auto simp: shutdownReader_def shutdownWriter_def prim_cases split: outcome.splits)
  have body: "map fst (new_calls w' (snd (snd (sendBodyBlock q b (s, w'))))) = [WriteRaw (fd s) b]
        \<and> fst (sendBodyBlock q b (s, w')) \<noteq> Inl (IOException m)" if "fd s \<noteq> - 1"
    using that
    by (cases "q (calls w') (WriteRaw (fd s) b)")
       (simp_all add: sendBodyBlock_present new_calls_def)
  have close: "map fst (new_calls w' (snd (snd (closeStream q (s, w'))))) = [SysClose (fd s)]
        \<and> fst (closeStream q (s, w')) \<noteq> Inl (IOException m)" if "fd s \<noteq> - 1"
    using that
    by (cases "q (calls w') (SysClose (fd s))")
       (simp_all add: closeStream_present new_calls_def)
  show ?thesis
    using keep body close
    by (metis fst_conv snd_conv getStream_def)
qed

text \<open>Instance: descriptor 5 after a successful shutdownWriter().\<close>

theorem shutdown_keeps_handle_witness:
  "getStream (fst (snd (shutdownWriter all_ok (session5, w0)))) = 5
   \<and> getStream (fst (snd (shutdownReader all_ok (session5, w0)))) = 5
   \<and> map fst (new_calls (snd (snd (shutdownWriter all_ok (session5, w0))))
        (snd (snd (sendBodyBlock all_ok ''a=1'' (snd (shutdownWriter all_ok (session5, w0)))))))
       = [WriteRaw 5 ''a=1'']
   \<and> map fst (new_calls (snd (snd (shutdownWriter all_ok (session5, w0))))
        (snd (snd (closeStream all_ok (snd (shutdownWriter all_ok (session5, w0)))))))
       = [SysClose 5]"
proof -
  have c: "shutdownWriter all_ok (session5, w0)
      = (Inr (), session5, \<lparr>calls = [(SysShutdown 5 SHUT_WR, Returns 0 0)], errno = 0\<rparr>)"
    by (simp add: shutdownWriter_def prim_cases session5_def StandardSession_new_def w0_def
        all_ok_def)
  have f: "fd session5 = 5" "getStream session5 = 5"
    by (simp_all add: session5_def StandardSession_new_def getStream_def)
  show ?thesis
    using shutdown_keeps_handle [of all_ok session5 w0 session5
        "\<lparr>calls = [(SysShutdown 5 SHUT_WR, Returns 0 0)], errno = 0\<rparr>" all_ok "''a=1''"] c f
    by simp
qed

section \<open>Discarding the stream\<close>

text \<open>
  C6. discardStream() sets the handle to -1 and leaves the world as it was: no call is
  recorded, so the close primitive is not invoked. Whatever is invoked on the session
  afterwards, and when it is finally destroyed, no close and no shutdown primitive is
  called on any descriptor: the stream stays open for its new owner.
\<close>

theorem discardStream_leaves_stream_open:
  assumes "discardStream (s, w) = (s', w')"
  shows "getStream s' = - 1
       \<and> w' = w
       \<and> new_calls w w' = []
       \<and> \<not> list_ex closes_or_shuts
             (new_calls w1 (snd (snd (StandardSession_destroy q (run q ms (s', w1))))))"
proof -
  have absent: "fd s' = - 1" and same: "w' = w"
    using assms by (auto simp: discardStream_def)
  obtain s2 w2 where r: "run q ms (s', w1) = (s2, w2)"
    by (cases "run q ms (s', w1)") auto
  obtain h where h: "fd s2 = - 1" "calls w2 = calls w1 @ h" "\<not> list_ex closes_or_shuts h"
    using run_absent [OF absent, of q ms w1] r by auto
  have "new_calls w1 (snd (snd (StandardSession_destroy q (s2, w2))))
      = h @ [(CloseCallback (closeCallback s2), q (calls w2) (CloseCallback (closeCallback s2)))]"
    using destroy_absent [OF h(1), of q w2] h(2) by (simp add: new_calls_def)
  then have "\<not> list_ex closes_or_shuts
      (new_calls w1 (snd (snd (StandardSession_destroy q (s2, w2)))))"
    using h(3) by simp
  then show ?thesis
    using absent same r by (simp add: getStream_def)
qed

text \<open>
  Instance: descriptor 5 discarded, then shutdownWriter(), closeStream() and the
  destructor.
\<close>

theorem discardStream_leaves_stream_open_witness:
  "getStream (fst (discardStream (session5, w0))) = - 1
   \<and> snd (discardStream (session5, w0)) = w0
   \<and> \<not> list_ex closes_or_shuts (new_calls w0 (snd (snd (StandardSession_destroy all_ok
        (run all_ok [ShutdownWriter, CloseStream] (discardStream (session5, w0)))))))"
  using discardStream_leaves_stream_open [of session5 w0 "session5\<lparr>fd := - 1\<rparr>" w0 w0 all_ok
      "[ShutdownWriter, CloseStream]"]
  by (simp add: discardStream_def)

section \<open>What is written\<close>

lemma sendBodyBlocks_returns:
  "fd s \<noteq> - 1 \<Longrightarrow> sendBodyBlocks p bs (s, w) = (Inr (), s', w') \<Longrightarrow>
     s' = s \<and> (\<exists>h. calls w' = calls w @ h
                  \<and> map fst h = map (WriteRaw (fd s)) bs
                  \<and> concat (map (on_wire frame (fd s)) h) = concat bs)"
proof (induction bs arbitrary: w)
  case Nil
  then show ?case by simp
next
  case (Cons b bs)
  show ?case
  proof (cases "p (calls w) (WriteRaw (fd s) b)")
    case (Returns ret e)
    let ?w1 = "\<lparr>calls = calls w @ [(WriteRaw (fd s) b, Returns ret e)], errno = e\<rparr>"
    have step: "sendBodyBlock p b (s, w) = (Inr (), s, ?w1)"
      using Cons.prems(1) Returns by (simp add: sendBodyBlock_present)
    then have rest: "sendBodyBlocks p bs (s, ?w1) = (Inr (), s', w')"
      using Cons.prems(2) by simp
    from Cons.IH [OF Cons.prems(1) rest]
    obtain h where h: "s' = s" "calls w' = calls ?w1 @ h" "map fst h = map (WriteRaw (fd s)) bs"
        "concat (map (on_wire frame (fd s)) h) = concat bs"
      by auto
    have "calls w' = calls w @ ((WriteRaw (fd s) b, Returns ret e) # h)"
      using h(2) by simp
    moreover have "map fst ((WriteRaw (fd s) b, Returns ret e) # h) = map (WriteRaw (fd s)) (b # bs)"
      using h(3) by simp
    moreover have "concat (map (on_wire frame (fd s)) ((WriteRaw (fd s) b, Returns ret e) # h))
        = concat (b # bs)"
      using h(4) by simp
    ultimately show ?thesis using h(1) by blast
  next
    case (ThrowsSystem m e)
    then show ?thesis
      using Cons.prems by (simp add: sendBodyBlock_present)
  next
    case Interrupted
    then show ?thesis
      using Cons.prems by (simp add: sendBodyBlock_present)
  qed
qed

text \<open>
  C7. On a present handle, sendHeaders(buf) makes exactly one call, writeScalar on the
  handle with the buffer buf itself; when it returns, the stream has gained one framed
  message, the length indicator followed by buf. A sequence of sendBodyBlock calls that
  all return makes one writeRaw call per block, in order, and the stream has gained the
  concatenation of the blocks and nothing else.
\<close>

theorem send_wire_format:
  assumes "fd s \<noteq> - 1"
  shows "map fst (new_calls w (snd (snd (sendHeaders p buf (s, w))))) = [WriteScalar (fd s) buf]
       \<and> (fst (sendHeaders p buf (s, w)) = Inr () \<longrightarrow>
            wire frame (fd s) (calls (snd (snd (sendHeaders p buf (s, w)))))
              = wire frame (fd s) (calls w) @ frame (length buf) @ buf)
       \<and> (fst (sendBodyBlocks p bs (s, w)) = Inr () \<longrightarrow>
            map fst (new_calls w (snd (snd (sendBodyBlocks p bs (s, w)))))
              = map (WriteRaw (fd s)) bs
          \<and> wire frame (fd s) (calls (snd (snd (sendBodyBlocks p bs (s, w)))))
              = wire frame (fd s) (calls w) @ concat bs)"
proof -
  have hdr: "map fst (new_calls w (snd (snd (sendHeaders p buf (s, w))))) = [WriteScalar (fd s) buf]
       \<and> (fst (sendHeaders p buf (s, w)) = Inr () \<longrightarrow>
            wire frame (fd s) (calls (snd (snd (sendHeaders p buf (s, w)))))
              = wire frame (fd s) (calls w) @ frame (length buf) @ buf)"
    using assms
    by (cases "p (calls w) (WriteScalar (fd s) buf)")
       (simp_all add: sendHeaders_present new_calls_def wire_def)
  have body: "map fst (new_calls w (snd (snd (sendBodyBlocks p bs (s, w)))))
              = map (WriteRaw (fd s)) bs
          \<and> wire frame (fd s) (calls (snd (snd (sendBodyBlocks p bs (s, w)))))
              = wire frame (fd s) (calls w) @ concat bs"
    if ok: "fst (sendBodyBlocks p bs (s, w)) = Inr ()"
  proof -
    obtain s' w' where r: "sendBodyBlocks p bs (s, w) = (Inr (), s', w')"
      using ok by (cases "sendBodyBlocks p bs (s, w)") auto
    from sendBodyBlocks_returns [OF assms r, of frame]
    obtain h where h: "calls w' = calls w @ h" "map fst h = map (WriteRaw (fd s)) bs"
        "concat (map (on_wire frame (fd s)) h) = concat bs"
      by auto
    show ?thesis
      using r h by (simp add: new_calls_def wire_def)
  qed
  show ?thesis using hdr body by blast
qed

text \<open>Instance: descriptor 5, the header buffer "A" and the body blocks "a=" and "1".\<close>

theorem send_wire_format_witness:
  "map fst (new_calls w0 (snd (snd (sendHeaders all_ok ''A'' (session5, w0)))))
     = [WriteScalar 5 ''A'']
   \<and> wire length_be32 5 (calls (snd (snd (sendHeaders all_ok ''A'' (session5, w0)))))
     = length_be32 1 @ ''A''
   \<and> map fst (new_calls w0 (snd (snd (sendBodyBlocks all_ok [''a='', ''1''] (session5, w0)))))
     = [WriteRaw 5 ''a='', WriteRaw 5 ''1'']
   \<and> wire length_be32 5 (calls (snd (snd (sendBodyBlocks all_ok [''a='', ''1''] (session5, w0)))))
     = ''a=1''"
proof -
  have f: "fd session5 = 5" "fd session5 \<noteq> - 1"
    by (simp_all add: session5_def StandardSession_new_def)
  have h: "fst (sendHeaders all_ok ''A'' (session5, w0)) = Inr ()"
    by (simp add: sendHeaders_present f all_ok_def)
  have b: "fst (sendBodyBlocks all_ok [''a='', ''1''] (session5, w0)) = Inr ()"
    by (simp add: sendBodyBlock_present f all_ok_def)
  show ?thesis
    using send_wire_format [OF f(2), of w0 all_ok "''A''" length_be32 "[''a='', ''1'']"] h b f(1)
    by (simp add: wire_def w0_def)
qed

section \<open>Header buffers\<close>

lemma split_on_field: "c \<notin> set f \<Longrightarrow> split_on c (f @ c # rest) = f # split_on c rest"
proof (induction f)
  case Nil
  then show ?case by simp
next
  case (Cons x f)
  then show ?case by auto
qed

lemma notnulls_set: "notnulls f \<Longrightarrow> f \<noteq> [] \<and> NUL \<notin> set f"
  by (auto simp: notnulls_def notnull_def list_all_iff)

lemma split_on_header:
  assumes "notnulls name" and "notnulls val"
  shows "split_on NUL (name @ NUL # val @ NUL # rest) = name # val # split_on NUL rest"
  using assms by (simp add: split_on_field notnulls_set)

lemma headers_split:
  "headers buf \<Longrightarrow>
     (\<exists>ts. split_on NUL buf = ts @ [[]] \<and> even (length ts) \<and> [] \<notin> set ts)"
proof (induction rule: headers.induct)
  case headers_none
  then show ?case by simp
next
  case (headers_more name val rest)
  then obtain ts where ts: "split_on NUL rest = ts @ [[]]" "even (length ts)" "[] \<notin> set ts"
    by auto
  have "split_on NUL (name @ NUL # val @ NUL # rest) = (name # val # ts) @ [[]]"
    using headers_more.hyps ts(1) by (simp add: split_on_header)
  moreover have "even (length (name # val # ts))"
    using ts(2) by simp
  moreover have "[] \<notin> set (name # val # ts)"
    using ts(3) headers_more.hyps notnulls_set by auto
  ultimately show ?case by blast
qed

lemma headers_encode:
  "list_all (\<lambda>nv. notnulls (fst nv) \<and> notnulls (snd nv)) nvs \<Longrightarrow> headers (encode_headers nvs)"
proof (induction nvs)
  case Nil
  then show ?case by (simp add: encode_headers_def headers_none)
next
  case (Cons nv nvs)
  then have "headers (fst nv @ NUL # snd nv @ NUL # encode_headers nvs)"
    by (simp add: headers_more)
  then show ?case by (simp add: encode_headers_def encode_header_def)
qed

text \<open>
  C8. Encoding the pairs ("A","1"), ("B","2") gives the bytes A NUL 1 NUL B NUL 2 NUL.
  For every buffer of the grammar, splitting on NUL gives an even number of non-empty
  tokens, followed by the one empty piece after the last NUL.
\<close>

theorem header_grammar_tokens:
  "encode_headers [(''A'', ''1''), (''B'', ''2'')]
     = [CHR ''A'', NUL, CHR ''1'', NUL, CHR ''B'', NUL, CHR ''2'', NUL]
   \<and> (headers buf \<longrightarrow>
        even (length (tokens buf))
      \<and> split_on NUL buf = tokens buf @ [[]])"
proof -
  have enc: "encode_headers [(''A'', ''1''), (''B'', ''2'')]
     = [CHR ''A'', NUL, CHR ''1'', NUL, CHR ''B'', NUL, CHR ''2'', NUL]"
    by (simp add: encode_headers_def encode_header_def)
  have tok: "even (length (tokens buf)) \<and> split_on NUL buf = tokens buf @ [[]]" if "headers buf"
  proof -
    from that headers_split [of buf]
    obtain ts where ts: "split_on NUL buf = ts @ [[]]" "even (length ts)" "[] \<notin> set ts"
      by auto
    have "filter (\<lambda>t. t \<noteq> []) ts = ts"
      using ts(3) by (simp add: filter_id_conv) metis
    then have "tokens buf = ts"
      using ts(1) by (simp add: tokens_def)
    then show ?thesis using ts by simp
  qed
  show ?thesis using enc tok by blast
qed

text \<open>Instance: the encoding of ("A","1"), ("B","2"), a buffer of the grammar.\<close>

theorem header_grammar_tokens_witness:
  "headers (encode_headers [(''A'', ''1''), (''B'', ''2'')])
   \<and> tokens (encode_headers [(''A'', ''1''), (''B'', ''2'')]) = [''A'', ''1'', ''B'', ''2'']
   \<and> even (length (tokens (encode_headers [(''A'', ''1''), (''B'', ''2'')])))"
proof -
  have h: "headers (encode_headers [(''A'', ''1''), (''B'', ''2'')])"
    by (rule headers_encode) (simp add: notnulls_def notnull_def NUL_def)
  have t: "tokens (encode_headers [(''A'', ''1''), (''B'', ''2'')]) = [''A'', ''1'', ''B'', ''2'']"
    by (simp add: tokens_def encode_headers_def encode_header_def NUL_def)
  show ?thesis
    using header_grammar_tokens [of "encode_headers [(''A'', ''1''), (''B'', ''2'')]"] h t
    by simp
qed

end
